theory Spec2Isabelle
  imports Complex_Main
begin


section \<open>JavaScript primitives used by the bot\<close>

text \<open>
  Strings are lists of code units; HOL's \<open>char\<close> covers the code units below 256.
  \<open>undefined\<close> is modelled by \<open>None\<close> wherever the source can meet it: an array read
  past the end, a missing object property, the bot's id before authentication.
\<close>

text \<open>\<open>String.prototype.split(' ')\<close>: the pieces between single spaces; the empty string
  gives one empty piece, consecutive spaces give empty pieces.\<close>

fun split_sp :: "string \<Rightarrow> string list" where
  "split_sp [] = [[]]"
| "split_sp (c # cs) =
     (if c = CHR '' '' then [] # split_sp cs
      else (case split_sp cs of [] \<Rightarrow> [[c]] | t # ts \<Rightarrow> (c # t) # ts))"

text \<open>\<open>Array.prototype.join(sep)\<close> on an array of strings.\<close>

fun js_join :: "string \<Rightarrow> string list \<Rightarrow> string" where
  "js_join sep [] = []"
| "js_join sep [x] = x"
| "js_join sep (x # y # ys) = x @ sep @ js_join sep (y # ys)"

text \<open>\<open>arr[i]\<close>: \<open>undefined\<close> past the end.\<close>

definition js_index :: "'a list \<Rightarrow> nat \<Rightarrow> 'a option" where
  "js_index xs i = (if i < length xs then Some (xs ! i) else None)"

text \<open>Truthiness of a value that is a string or \<open>undefined\<close>.\<close>

definition truthy :: "string option \<Rightarrow> bool" where
  "truthy v = (case v of None \<Rightarrow> False | Some s \<Rightarrow> s \<noteq> [])"

text \<open>String conversion of a value that is a string or \<open>undefined\<close>, as a template literal
  or a property key does it.\<close>

definition toString :: "string option \<Rightarrow> string" where
  "toString v = (case v of None \<Rightarrow> ''undefined'' | Some s \<Rightarrow> s)"

text \<open>The characters \<open>parseInt\<close> skips at the start of its input.\<close>

definition isStrWhiteSpace :: "char \<Rightarrow> bool" where
  "isStrWhiteSpace c =
     (c = CHR 0x09 \<or> c = CHR 0x0A \<or> c = CHR 0x0B \<or> c = CHR 0x0C \<or> c = CHR 0x0D
      \<or> c = CHR '' '' \<or> c = CHR 0xA0)"

text \<open>The value of a character as a digit: \<open>0-9\<close>, then \<open>a-z\<close> and \<open>A-Z\<close> from ten on.\<close>

definition digit_value :: "char \<Rightarrow> nat option" where
  "digit_value c =
     (let n = (of_char c :: nat) in
      if 48 \<le> n \<and> n \<le> 57 then Some (n - 48)
      else if 97 \<le> n \<and> n \<le> 122 then Some (n - 87)
      else if 65 \<le> n \<and> n \<le> 90 then Some (n - 55)
      else None)"

definition radix_digit :: "nat \<Rightarrow> char \<Rightarrow> bool" where
  "radix_digit R c = (case digit_value c of None \<Rightarrow> False | Some d \<Rightarrow> d < R)"

definition radix_value :: "nat \<Rightarrow> string \<Rightarrow> int" where
  "radix_value R Z = foldl (\<lambda>a c. a * int R + int (the (digit_value c))) 0 Z"

text \<open>
  A JavaScript number is a double: \<open>NaN\<close>, an infinity, or a finite value, kept here as
  the rational it denotes (the sign of a zero is not kept; both zeros are falsy).
\<close>

datatype number = NaN | Num rat | PosInfinity | NegInfinity

text \<open>The number of binary digits of a natural number.\<close>

fun bit_length :: "nat \<Rightarrow> nat" where
  "bit_length n = (if n = 0 then 0 else Suc (bit_length (n div 2)))"

declare bit_length.simps [simp del]

definition pow2 :: "int \<Rightarrow> rat" where
  "pow2 e = (if 0 \<le> e then 2 ^ nat e else 1 / 2 ^ nat (- e))"

text \<open>For \<open>a > 0\<close>, the integer \<open>l\<close> with \<open>2^l \<le> a < 2^(l+1)\<close>.\<close>

definition ilog2 :: "rat \<Rightarrow> int" where
  "ilog2 a =
     (if 1 \<le> a then int (bit_length (nat \<lfloor>a\<rfloor>)) - 1
      else - int (bit_length (nat (\<lceil>1 / a\<rceil> - 1))))"

definition round_half_even :: "rat \<Rightarrow> int" where
  "round_half_even y =
     (let f = \<lfloor>y\<rfloor>; r = y - of_int f in
      if r < 1 / 2 then f else if 1 / 2 < r then f + 1 else if even f then f else f + 1)"

text \<open>
  The number value of a rational: the nearest double, ties to the even significand. A
  double is a significand of at most 53 bits times a power of two with exponent from
  \<open>-1074\<close> on; what rounds to \<open>2^1024\<close> or beyond is an infinity.
\<close>

definition Number_value :: "rat \<Rightarrow> number" where
  "Number_value x =
     (if x = 0 then Num 0
      else (let a = \<bar>x\<bar>;
                e = max (- 1074) (ilog2 a - 52);
                m = round_half_even (a / pow2 e);
                v = of_int m * pow2 e
            in if 2 ^ 1024 \<le> v then (if x < 0 then NegInfinity else PosInfinity)
               else Num (if x < 0 then - v else v)))"

text \<open>\<open>x * y\<close> on numbers.\<close>

fun number_times :: "number \<Rightarrow> number \<Rightarrow> number" where
  "number_times (Num a) (Num b) = Number_value (a * b)"
| "number_times NaN y = NaN"
| "number_times x NaN = NaN"
| "number_times (Num a) PosInfinity =
     (if a = 0 then NaN else if a < 0 then NegInfinity else PosInfinity)"
| "number_times (Num a) NegInfinity =
     (if a = 0 then NaN else if a < 0 then PosInfinity else NegInfinity)"
| "number_times PosInfinity (Num b) =
     (if b = 0 then NaN else if b < 0 then NegInfinity else PosInfinity)"
| "number_times NegInfinity (Num b) =
     (if b = 0 then NaN else if b < 0 then PosInfinity else NegInfinity)"
| "number_times PosInfinity PosInfinity = PosInfinity"
| "number_times PosInfinity NegInfinity = NegInfinity"
| "number_times NegInfinity PosInfinity = NegInfinity"
| "number_times NegInfinity NegInfinity = PosInfinity"

text \<open>
  \<open>parseInt(v)\<close> with no radix argument, on a string or \<open>undefined\<close>: leading white space
  is skipped, one sign is read, a \<open>0x\<close> or \<open>0X\<close> prefix selects radix 16 (radix 10
  otherwise), and the longest run of digits of that radix is read as an integer; no digit
  gives \<open>NaN\<close>. The result is the number value of that integer.
\<close>

definition parseInt :: "string option \<Rightarrow> number" where
  "parseInt v =
     (let inputString = toString v;
          S = dropWhile isStrWhiteSpace inputString;
          sign = (if take 1 S = ''-'' then - 1 else 1 :: int);
          S1 = (if take 1 S = ''+'' \<or> take 1 S = ''-'' then drop 1 S else S);
          stripPrefix = (take 2 S1 = ''0x'' \<or> take 2 S1 = ''0X'');
          R = (if stripPrefix then 16 else 10);
          S2 = (if stripPrefix then drop 2 S1 else S1);
          Z = takeWhile (radix_digit R) S2
      in if Z = [] then NaN else Number_value (of_int (sign * radix_value R Z)))"

text \<open>\<open>a || b\<close> where \<open>a\<close> is the result of \<open>parseInt\<close> and \<open>b\<close> the configured limit:
  \<open>NaN\<close> and \<open>0\<close> are falsy.\<close>

definition or_default :: "number \<Rightarrow> int \<Rightarrow> number" where
  "or_default a b = (if a = NaN \<or> a = Num 0 then Num (of_int b) else a)"

text \<open>\<open>s.replace(/[^0-9a-z]/gi, '')\<close>: only the ASCII letters and digits stay.\<close>

definition alnum :: "char \<Rightarrow> bool" where
  "alnum c = (digit_value c \<noteq> None)"

definition strip_non_alnum :: "string \<Rightarrow> string" where
  "strip_non_alnum s = filter alnum s"

text \<open>\<open>s.indexOf(p) == 0\<close>.\<close>

definition starts_with :: "string \<Rightarrow> string \<Rightarrow> bool" where
  "starts_with p s = (take (length p) s = p)"


section \<open>Data model\<close>

text \<open>An inbound message event. \<open>msg_ts\<close> is the decimal value of the epoch-seconds
  timestamp the platform sends; \<open>msg_subtype\<close> is absent on ordinary messages.\<close>

record msg =
  msg_type :: string
  msg_channel :: string
  msg_user :: string
  msg_text :: string
  msg_ts :: rat
  msg_team :: string
  msg_subtype :: "string option"

text \<open>The bot: \<open>bot_id\<close> is \<open>this.id\<close>, undefined until the transport has authenticated;
  \<open>config_limit\<close> is \<open>this.config.limit\<close>.\<close>

record bot =
  bot_id :: "string option"
  config_limit :: int

text \<open>The object \<open>getMsgTag\<close> builds and \<open>generate\<close> consumes.\<close>

record params =
  user :: string
  channel :: string
  limit :: number

datatype tag = TagFalse | TagNull | TagParams params

datatype error = TypeError | Error string | OverwriteModelError string

text \<open>\<open>new Date(x)\<close> on a number: the time value in milliseconds, truncated towards zero;
  an invalid date when \<open>x\<close> is not finite or beyond the range of dates.\<close>

datatype date = Date int | InvalidDate

definition new_Date :: "number \<Rightarrow> date" where
  "new_Date x =
     (case x of
        Num r \<Rightarrow> if \<bar>r\<bar> > 8640000000000000 then InvalidDate
                 else Date (if 0 \<le> r then \<lfloor>r\<rfloor> else \<lceil>r\<rceil>)
      | _ \<Rightarrow> InvalidDate)"

text \<open>The document of collection \<open>Message\<close> (the schema keeps these six fields).\<close>

record document =
  d_type :: string
  d_channel :: string
  d_user :: string
  d_text :: string
  d_ts :: date
  d_team :: string

text \<open>What the bot does to its collaborators, in the order it does it. The text of a
  sent message is \<open>None\<close> when the source passes \<open>undefined\<close>. \<open>Insert d\<close> is the call
  of \<open>save\<close> on the document \<open>d\<close>; its outcome is the store's.\<close>

datatype effect =
    SendMessage "string option" string
  | Find string number
  | Insert document
  | Remove string
  | Generate string int


section \<open>The mention parser\<close>

definition mention :: "bot \<Rightarrow> string" where
  "mention b = ''<@'' @ toString (bot_id b) @ ''>''"

definition denial :: string where
  "denial = ''I'' @ [CHR 0x27] @ ''m sorry, Dave. I'' @ [CHR 0x27] @ ''m afraid I can'' @ [CHR 0x27] @ ''t do that''"

definition deny :: "string \<Rightarrow> effect list" where
  "deny ch = [SendMessage (Some denial) ch]"

text \<open>\<open>_isCalled\<close>, on a message object: the token array when the bot is addressed.\<close>

definition isCalled :: "bot \<Rightarrow> msg \<Rightarrow> string list option" where
  "isCalled b m =
     (let msgArr = split_sp (msg_text m) in
      if length msgArr \<noteq> 0 \<and> truthy (js_index msgArr 1) \<and> js_index msgArr 0 = Some (mention b)
      then Some msgArr else None)"

text \<open>\<open>getMsgTag\<close>: the result (or the exception) and the messages sent on the way.\<close>

definition getMsgTag :: "bot \<Rightarrow> msg \<Rightarrow> (error + tag) \<times> effect list" where
  "getMsgTag b m =
     (let msgArray = split_sp (msg_text m) in
      if isCalled b m \<noteq> None then
        (if js_index msgArray 1 = Some ''me'' then
           (Inr (TagParams \<lparr>user = msg_user m, channel = msg_channel m,
                           limit = or_default (parseInt (js_index msgArray 2)) (config_limit b)\<rparr>), [])
         else (case js_index msgArray 1 of
                 None \<Rightarrow> (Inl TypeError, [])
               | Some t1 \<Rightarrow>
                   if starts_with ''<@'' t1 then
                     (if t1 = mention b then (Inr TagNull, deny (msg_channel m))
                      else (Inr (TagParams \<lparr>user = strip_non_alnum t1, channel = msg_channel m,
                                  limit = or_default (parseInt (js_index msgArray 2)) (config_limit b)\<rparr>), []))
                   else (Inr TagFalse, [])))
      else (Inr TagFalse, []))"


section \<open>Collaborators\<close>

text \<open>
  The store and the text generator are outside the program; each is a function giving the
  outcome of one call. \<open>store_find u n\<close> is what the promise of
  \<open>Message.find({user: u}).limit(n)\<close> settles to (\<open>Inl\<close>: rejected), \<open>store_remove u\<close>
  that of \<open>Message.remove({user: u}).exec()\<close>, and \<open>markov seed n\<close> is
  \<open>new MarkovChain(seed, null, n).generate()\<close> (\<open>Inl\<close>: it throws).
\<close>

record env =
  store_find :: "string \<Rightarrow> number \<Rightarrow> error + document list"
  store_remove :: "string \<Rightarrow> error + unit"
  markov :: "string \<Rightarrow> int \<Rightarrow> error + string"


section \<open>The command dispatcher\<close>

record command =
  cmd_method :: "string option"
  description :: "string option"

record invocation = command +
  args :: "string list"

text \<open>\<open>_setCommands\<close>: the own properties of \<open>this._commands\<close>, in insertion order.\<close>

definition commands :: "(string \<times> command) list" where
  "commands =
     [(''purge'', \<lparr>cmd_method = Some ''_purge'',
         description = Some (''Purges all of a user'' @ [CHR 0x27] @ ''s messages from the database'')\<rparr>),
      (''help'', \<lparr>cmd_method = Some ''_help'', description = Some ''Displays the help message''\<rparr>)]"

text \<open>\<open>this._commands\<close> is a plain object, so a property read also finds what it inherits
  from \<open>Object.prototype\<close>: functions and objects, all truthy, none with a property \<open>method\<close>
  or \<open>description\<close>.\<close>

definition object_prototype_keys :: "string list" where
  "object_prototype_keys =
     [''constructor'', ''toString'', ''toLocaleString'', ''valueOf'', ''hasOwnProperty'',
      ''isPrototypeOf'', ''propertyIsEnumerable'', ''__proto__'', ''__defineGetter__'',
      ''__defineSetter__'', ''__lookupGetter__'', ''__lookupSetter__'']"

text \<open>\<open>this._commands[key]\<close>: \<open>None\<close> is \<open>undefined\<close>.\<close>

definition commands_lookup :: "string \<Rightarrow> command option" where
  "commands_lookup key =
     (case map_of commands key of
        Some c \<Rightarrow> Some c
      | None \<Rightarrow> if key \<in> set object_prototype_keys
                then Some \<lparr>cmd_method = None, description = None\<rparr> else None)"

text \<open>\<open>_parseCommand\<close>: \<open>None\<close> is the source's \<open>false\<close>; \<open>shift\<close> is \<open>drop 1\<close>.\<close>

definition parseCommand :: "bot \<Rightarrow> msg \<Rightarrow> invocation option" where
  "parseCommand b m =
     (case isCalled b m of
        None \<Rightarrow> None
      | Some msgArr \<Rightarrow>
          if truthy (js_index msgArr 0) then
            (let msgArr1 = drop 1 msgArr in
             case commands_lookup (toString (js_index msgArr1 0)) of
               None \<Rightarrow> None
             | Some c \<Rightarrow> Some \<lparr>cmd_method = cmd_method c, description = description c,
                                args = drop 1 msgArr1\<rparr>)
          else None)"

text \<open>\<open>_help\<close> (\<open>help\<close> is taken): one line per own key of the command table, joined by carriage returns.\<close>

definition helpCommand :: "msg \<Rightarrow> effect list" where
  "helpCommand m =
     (let text0 = [''Here is a list of the commands I know: '' @ [CHR 0x0D]];
          lines = map (\<lambda>(name, c). [CHR 0x60] @ name @ [CHR 0x60] @ '': '' @ toString (description c))
                    commands
      in [SendMessage (Some (js_join [CHR 0x0D] (text0 @ lines))) (msg_channel m)])"

text \<open>\<open>_purge\<close>: the confirmation is sent when the removal's promise is fulfilled.\<close>

definition purge :: "env \<Rightarrow> msg \<Rightarrow> effect list" where
  "purge e m =
     Remove (msg_user m) #
     (case store_remove e (msg_user m) of
        Inl err \<Rightarrow> []
      | Inr u \<Rightarrow> [SendMessage (Some (''<@'' @ msg_user m @ ''> Your messages have been purged!''))
                   (msg_channel m)])"

text \<open>\<open>this[methodName](msg, args)\<close> for the method names the command table can give; any
  other name, and \<open>undefined\<close>, is not a function of the bot the table refers to.\<close>

definition call_method :: "env \<Rightarrow> string option \<Rightarrow> msg \<Rightarrow> string list \<Rightarrow> (error + unit) \<times> effect list" where
  "call_method e methodName m as =
     (if methodName = Some ''_purge'' then (Inr (), purge e m)
      else if methodName = Some ''_help'' then (Inr (), helpCommand m)
      else (Inl TypeError, []))"

text \<open>\<open>_exec\<close>.\<close>

definition exec :: "env \<Rightarrow> string option \<Rightarrow> msg \<Rightarrow> string list \<Rightarrow> (error + unit) \<times> effect list" where
  "exec e methodName m as =
     (if ''-h'' \<in> set as \<or> ''--help'' \<in> set as then
        (let prop = js_index (split_sp (msg_text m)) 1 in
         case commands_lookup (toString prop) of
           None \<Rightarrow> (Inl TypeError, [])
         | Some c \<Rightarrow> (Inr (), [SendMessage (description c) (msg_channel m)]))
      else call_method e methodName m as)"


section \<open>The generation pipeline\<close>

text \<open>\<open>generateChain\<close>: the generator's bound is \<open>this.config.limit\<close>.\<close>

definition generateChain :: "bot \<Rightarrow> env \<Rightarrow> string \<Rightarrow> (error + string) \<times> effect list" where
  "generateChain b e seed =
     (markov e seed (config_limit b), [Generate seed (config_limit b)])"

definition postChain :: "string \<Rightarrow> string \<Rightarrow> string \<Rightarrow> effect list" where
  "postChain chain u ch = [SendMessage (Some (''<@'' @ u @ ''> says: '' @ chain)) ch]"

text \<open>
  \<open>generate\<close>: the query, then what the \<open>then\<close> callback does with its result. A rejected
  query runs no callback, and an exception of the generator ends the callback; neither
  reaches the caller of \<open>generate\<close>, so the result is the trace alone.
\<close>

definition generate :: "bot \<Rightarrow> env \<Rightarrow> params \<Rightarrow> effect list" where
  "generate b e p =
     Find (user p) (limit p) #
     (case store_find e (user p) (limit p) of
        Inl err \<Rightarrow> []
      | Inr messages \<Rightarrow>
          if length messages = 0 then deny (channel p)
          else (let textArr = map d_text messages;
                    (chain, effs) = generateChain b e (js_join '' '' textArr)
                in effs @ (case chain of
                             Inl err \<Rightarrow> []
                           | Inr c \<Rightarrow> postChain c (user p) (channel p))))"


section \<open>The ingestion filter\<close>

text \<open>\<open>_warrantsSave\<close>.\<close>

definition warrantsSave :: "msg \<Rightarrow> bool" where
  "warrantsSave m =
     (let res = True in
      if truthy (msg_subtype m) \<and> msg_subtype m = Some ''file_share'' then False else res)"

text \<open>
  \<open>saveMessage\<close>: \<open>msg.ts\<close> is replaced by \<open>new Date(msg.ts * 1000)\<close>, a product of
  doubles, the document is built and its \<open>save\<close> is started. \<open>saveMessage\<close> has returned
  when the insert's outcome is known; the outcome goes to \<open>save_callback\<close>, which the
  store driver calls later with the error, or with \<open>null\<close> (here \<open>None\<close>).
\<close>

definition saveMessage :: "msg \<Rightarrow> effect list" where
  "saveMessage m =
     [Insert \<lparr>d_type = msg_type m, d_channel = msg_channel m, d_user = msg_user m,
              d_text = msg_text m, d_ts = new_Date (number_times (Number_value (msg_ts m)) (Num 1000)),
              d_team = msg_team m\<rparr>]"

definition save_callback :: "string option \<Rightarrow> error + unit" where
  "save_callback err = (if truthy err then Inl (Error (toString err)) else Inr ())"


section \<open>The message handler\<close>

text \<open>The handler \<open>run\<close> registers for message events.\<close>

definition run :: "bot \<Rightarrow> env \<Rightarrow> msg \<Rightarrow> (error + unit) \<times> effect list" where
  "run b e m =
     (case getMsgTag b m of
        (Inl err, effs) \<Rightarrow> (Inl err, effs)
      | (Inr queryParams, effs) \<Rightarrow>
          (let command = parseCommand b m in
           case queryParams of
             TagParams p \<Rightarrow> (Inr (), effs @ generate b e p)
           | _ \<Rightarrow>
               (case command of
                  Some c \<Rightarrow> (let (r, effs2) = exec e (cmd_method c) m (args c) in (r, effs @ effs2))
                | None \<Rightarrow>
                    if queryParams = TagFalse \<and> warrantsSave m
                    then (Inr (), effs @ saveMessage m)
                    else (Inr (), effs))))"


section \<open>The stream of events\<close>

text \<open>
  The process handles one event at a time, in the order the runtime delivers them: an
  inbound message goes to the handler of \<open>run\<close>, and the completion of an insert goes to
  the callback \<open>saveMessage\<close> gave to \<open>save\<close>, with the driver's error or \<open>null\<close>. The
  repository installs no handler for uncaught exceptions, and the driver rethrows what a
  callback throws; so, as the runtime documents it, an exception that leaves a handler or
  a callback ends the process and the events after it are not handled. The result is
  \<open>Inl\<close> of that exception, or \<open>Inr ()\<close> when every event was handled, with the trace up
  to there.
\<close>

datatype event = MessageEvent msg | SaveCompleted "string option"

definition handle_event :: "bot \<Rightarrow> env \<Rightarrow> event \<Rightarrow> (error + unit) \<times> effect list" where
  "handle_event b e ev =
     (case ev of MessageEvent m \<Rightarrow> run b e m | SaveCompleted err \<Rightarrow> (save_callback err, []))"

fun event_loop :: "bot \<Rightarrow> env \<Rightarrow> event list \<Rightarrow> (error + unit) \<times> effect list" where
  "event_loop b e [] = (Inr (), [])"
| "event_loop b e (ev # evs) =
     (case handle_event b e ev of
        (Inl err, effs) \<Rightarrow> (Inl err, effs)
      | (Inr u, effs) \<Rightarrow> (case event_loop b e evs of (r, effs') \<Rightarrow> (r, effs @ effs')))"


section \<open>Construction and the shared default configuration\<close>

text \<open>
  Configuration values are numbers, strings and nested objects; an object is a map from
  its own property names to their values. \<open>config/default.js\<close> exports one object, which
  every \<open>require\<close> of the module returns: it lives in a store of objects at the address
  \<open>defaultConfig\<close>, and a bot holds the address of its configuration, not a copy. The
  store library keeps one registry of compiled models for the process.
\<close>

datatype jsval = JNum int | JStr string | JObj "(string \<times> jsval) list"

type_synonym object = "string \<rightharpoonup> jsval"

type_synonym heap = "nat \<Rightarrow> object"

record world =
  objects :: heap
  models :: "string list"







text \<open>
  \<open>mongoose.model(name, schema)\<close> with a schema given as a plain object, as
  \<open>collections/Message\<close> calls it: the library compiles a model under a name once, and
  throws \<open>OverwriteModelError\<close> when the name is compiled already.
\<close>

definition mongoose_model :: "world \<Rightarrow> string \<Rightarrow> world \<times> error option" where
  "mongoose_model w name =
     (if name \<in> set (models w) then (w, Some (OverwriteModelError name))
      else (w\<lparr>models := name # models w\<rparr>, None))"

text \<open>\<open>_db\<close>: the connection is opened (its outcome comes later and is not awaited) and
  the model of collection \<open>Message\<close> is compiled.\<close>

definition db :: "world \<Rightarrow> world \<times> error option" where
  "db w = mongoose_model w ''Message''"




section \<open>Reference notions and sample data\<close>

text \<open>The base-10 reading of a string of decimal digits, as the specification's
  "parsed as a base-10 integer" has it.\<close>

definition decimal_digit :: "char \<Rightarrow> bool" where
  "decimal_digit c = (48 \<le> (of_char c :: nat) \<and> (of_char c :: nat) \<le> 57)"

definition decimal_value :: "string \<Rightarrow> int" where
  "decimal_value s = foldl (\<lambda>a c. 10 * a + (int (of_char c) - 48)) 0 s"

definition sample_bot :: bot where
  "sample_bot = \<lparr>bot_id = Some ''B'', config_limit = 150\<rparr>"

definition sample_msg :: "string \<Rightarrow> string option \<Rightarrow> msg" where
  "sample_msg t st =
     \<lparr>msg_type = ''message'', msg_channel = ''C'', msg_user = ''U'', msg_text = t,
      msg_ts = 435 / 100, msg_team = ''T'', msg_subtype = st\<rparr>"

definition sample_doc :: "string \<Rightarrow> document" where
  "sample_doc t =
     \<lparr>d_type = ''message'', d_channel = ''C'', d_user = ''U'', d_text = t,
      d_ts = Date 0, d_team = ''T''\<rparr>"

definition sample_env :: "document list \<Rightarrow> env" where
  "sample_env ms =
     \<lparr>store_find = (\<lambda>u n. Inr ms), store_remove = (\<lambda>u. Inr ()),
      markov = (\<lambda>seed n. Inr ''out'')\<rparr>"









section \<open>Properties of the generation pipeline\<close>

text \<open>
  Claim C3. When the store returns no message for the request's user, the pipeline
  queries the store, sends the fixed string \<open>I'm sorry, Dave. I'm afraid I can't do that\<close>
  to the request's channel and does nothing else: the text generator is never called.
\<close>

theorem generate_empty_denies:
  assumes "store_find e (user p) (limit p) = Inr []"
  shows "generate b e p =
           [Find (user p) (limit p),
            SendMessage (Some [CHR ''I'', CHR 0x27, CHR ''m'', CHR '' '', CHR ''s'', CHR ''o'',
               CHR ''r'', CHR ''r'', CHR ''y'', CHR '','', CHR '' '', CHR ''D'', CHR ''a'',
               CHR ''v'', CHR ''e'', CHR ''.'', CHR '' '', CHR ''I'', CHR 0x27, CHR ''m'',
               CHR '' '', CHR ''a'', CHR ''f'', CHR ''r'', CHR ''a'', CHR ''i'', CHR ''d'',
               CHR '' '', CHR ''I'', CHR '' '', CHR ''c'', CHR ''a'', CHR ''n'', CHR 0x27,
               CHR ''t'', CHR '' '', CHR ''d'', CHR ''o'', CHR '' '', CHR ''t'', CHR ''h'',
               CHR ''a'', CHR ''t''])
              (channel p)]
         \<and> (\<forall>s n. Generate s n \<notin> set (generate b e p))"
  using assms by (simp add: generate_def deny_def denial_def)

theorem generate_empty_denies_witness:
  "generate sample_bot (sample_env []) \<lparr>user = ''U'', channel = ''C'', limit = Num 10\<rparr>
     = [Find ''U'' (Num 10),
        SendMessage (Some (''I'' @ [CHR 0x27] @ ''m sorry, Dave. I'' @ [CHR 0x27]
                           @ ''m afraid I can'' @ [CHR 0x27] @ ''t do that'')) ''C'']"
  using generate_empty_denies [of "sample_env []" "\<lparr>user = ''U'', channel = ''C'', limit = Num 10\<rparr>" sample_bot]
  by (simp add: sample_env_def)



text \<open>
  Claim C5, as stated, fails: a request with limit 10 handled by a bot whose configured
  limit is 150 caps the store query at 10 and calls the generator with the bound 150.
\<close>

theorem generator_bound_is_request_limit_counterexample:
  "Generate ''a'' 150 \<in> set (generate sample_bot (sample_env [sample_doc ''a''])
       \<lparr>user = ''U'', channel = ''C'', limit = Num 10\<rparr>)
   \<and> limit \<lparr>user = ''U'', channel = ''C'', limit = Num 10\<rparr> \<noteq> Num 150"
  by (simp add: generate_def generateChain_def postChain_def sample_env_def sample_doc_def sample_bot_def)

text \<open>
  Claim C5, amended. For a request processed with a non-empty corpus, the bound passed to
  the text generator is the bot's configured limit \<open>this.config.limit\<close>, whatever the
  request's own limit is; the store query is capped by the request's limit.
\<close>

theorem generator_bound_is_config_limit:
  assumes "store_find e (user p) (limit p) = Inr messages" and "messages \<noteq> []"
  shows "Generate (js_join '' '' (map d_text messages)) (config_limit b) \<in> set (generate b e p)
         \<and> (\<forall>s n. Generate s n \<in> set (generate b e p) \<longrightarrow> n = config_limit b)
         \<and> hd (generate b e p) = Find (user p) (limit p)"
  using assms by (auto simp add: generate_def generateChain_def postChain_def Let_def split: sum.splits)

theorem generator_bound_is_config_limit_witness:
  "Generate ''a'' 150 \<in> set (generate sample_bot (sample_env [sample_doc ''a''])
       \<lparr>user = ''U'', channel = ''C'', limit = Num 10\<rparr>)
   \<and> hd (generate sample_bot (sample_env [sample_doc ''a''])
       \<lparr>user = ''U'', channel = ''C'', limit = Num 10\<rparr>) = Find ''U'' (Num 10)"
  using generator_bound_is_config_limit [of "sample_env [sample_doc ''a'']"
      "\<lparr>user = ''U'', channel = ''C'', limit = Num 10\<rparr>" "[sample_doc ''a'']" sample_bot]
  by (simp add: sample_env_def sample_doc_def sample_bot_def)


section \<open>Numbers\<close>

lemma bit_length_le: "n < 2 ^ k \<Longrightarrow> bit_length n \<le> k"
proof (induction k arbitrary: n)
  case 0
  then show ?case by (simp add: bit_length.simps)
next
  case (Suc k)
  show ?case
  proof (cases "n = 0")
    case True
    then show ?thesis by (simp add: bit_length.simps)
  next
    case False
    from Suc.prems have "n div 2 < 2 ^ k" by simp
    then have "bit_length (n div 2) \<le> k" by (rule Suc.IH)
    with False show ?thesis by (subst bit_length.simps) simp
  qed
qed

lemma bit_length_pos: "0 < n \<Longrightarrow> 0 < bit_length n"
  by (subst bit_length.simps) simp

lemma round_half_even_of_int: "round_half_even (of_int j) = j"
  by (simp add: round_half_even_def)

text \<open>An integer below \<open>2^53\<close> is a double.\<close>

lemma Number_value_exact_pos:
  assumes "0 < n" and "n < 2 ^ 53"
  shows "Number_value (of_int n) = Num (of_int n)"
proof -
  let ?k = "bit_length (nat n)"
  let ?a = "of_int n :: rat"
  have le: "?k \<le> 53"
    using assms by (intro bit_length_le) (simp add: nat_less_iff)
  have pos: "0 < ?k" using assms by (intro bit_length_pos) simp
  have il: "ilog2 ?a = int ?k - 1"
    using assms by (simp add: ilog2_def)
  define d where "d = 53 - ?k"
  have e: "max (- 1074) (ilog2 ?a - 52) = - int d"
    using le pos il by (simp add: d_def)
  have p: "pow2 (- int d) = 1 / 2 ^ d"
    by (cases "d = 0") (simp_all add: pow2_def)
  have y: "?a / pow2 (- int d) = of_int (n * 2 ^ d)"
    by (simp add: p)
  have m: "round_half_even (?a / pow2 (- int d)) = n * 2 ^ d"
    unfolding y by (rule round_half_even_of_int)
  have v: "(of_int (n * 2 ^ d) :: rat) * pow2 (- int d) = ?a"
    by (simp add: p)
  have small: "\<not> (2 ^ 1024 \<le> ?a)"
  proof -
    have "?a < of_int (2 ^ 53)" using assms by (simp only: of_int_less_iff)
    also have "\<dots> \<le> 2 ^ 1024" by simp
    finally show ?thesis by simp
  qed
  have ab: "\<bar>?a\<bar> = ?a" and nz: "?a \<noteq> 0" and nn: "\<not> ?a < 0"
    using assms by simp_all
  show ?thesis
    unfolding Number_value_def Let_def ab e m v
    using nz nn small by (simp only: if_False)
qed

lemma Number_value_nat_exact:
  assumes "0 \<le> n" and "n < 2 ^ 53"
  shows "Number_value (of_int n) = Num (of_int n)"
proof (cases "n = 0")
  case True
  then show ?thesis by (simp add: Number_value_def)
next
  case False
  with assms have "0 < n" by simp
  then show ?thesis using assms(2) by (rule Number_value_exact_pos)
qed

lemma floor_rat_numeral_div:
  "\<lfloor>(numeral a :: rat) / numeral b\<rfloor> = numeral a div numeral b"
  using floor_divide_of_int_eq [of "numeral a" "numeral b", where ?'a = rat] by simp

text \<open>
  Known values of doubles: the decimal \<open>4.35\<close> is not a double, the nearest one lies
  below it, and its product with 1000 rounds to 4350; the double nearest
  \<open>1500000000.001\<close> times 1000 is 1500000000001; \<open>2^53 + 1\<close> rounds to \<open>2^53\<close>.
\<close>

lemma Number_value_4_35:
  "Number_value (435 / 100) = Num (2448832297382707 / 562949953421312)"
  apply (simp add: Number_value_def Let_def)
  apply (simp add: ilog2_def floor_rat_numeral_div bit_length.simps)
  apply (simp add: pow2_def)
  apply (simp add: round_half_even_def floor_rat_numeral_div)
  done

lemma Number_value_4_35_times_1000:
  "number_times (Number_value (435 / 100)) (Num 1000) = Num 4350"
  apply (simp only: Number_value_4_35 number_times.simps)
  apply (simp add: Number_value_def Let_def)
  apply (simp add: ilog2_def floor_rat_numeral_div bit_length.simps)
  apply (simp add: pow2_def)
  apply (simp add: round_half_even_def floor_rat_numeral_div)
  done

lemma Number_value_1500000000_001:
  "Number_value (1500000000001 / 1000) = Num (3145728000002097 / 2097152)"
  apply (simp add: Number_value_def Let_def)
  apply (simp add: ilog2_def floor_rat_numeral_div bit_length.simps)
  apply (simp add: pow2_def)
  apply (simp add: round_half_even_def floor_rat_numeral_div)
  done

lemma Number_value_1500000000_001_times_1000:
  "number_times (Number_value (1500000000001 / 1000)) (Num 1000) = Num 1500000000001"
  apply (simp only: Number_value_1500000000_001 number_times.simps)
  apply (simp add: Number_value_def Let_def)
  apply (simp add: ilog2_def floor_rat_numeral_div bit_length.simps)
  apply (simp add: pow2_def)
  apply (simp add: round_half_even_def floor_rat_numeral_div)
  done

lemma Number_value_2_53_1: "Number_value 9007199254740993 = Num 9007199254740992"
  apply (simp add: Number_value_def Let_def)
  apply (simp add: ilog2_def floor_rat_numeral_div bit_length.simps)
  apply (simp add: pow2_def)
  apply (simp add: round_half_even_def floor_rat_numeral_div)
  done

lemma new_Date_4350: "new_Date (Num 4350) = Date 4350"
  by (simp add: new_Date_def)


section \<open>Tokens and numerals\<close>

lemma split_sp_not_Nil: "split_sp s \<noteq> []"
  by (induction s) (auto split: list.splits)

lemma js_join_split_sp: "js_join '' '' (split_sp s) = s"
proof (induction s)
  case Nil
  then show ?case by simp
next
  case (Cons c cs)
  obtain t ts where ts: "split_sp cs = t # ts"
    using split_sp_not_Nil [of cs] by (cases "split_sp cs") auto
  show ?case
  proof (cases "c = CHR '' ''")
    case True
    with Cons ts show ?thesis by simp
  next
    case False
    with Cons ts show ?thesis by (cases ts) auto
  qed
qed

lemma split_sp_no_space: "t \<in> set (split_sp s) \<Longrightarrow> CHR '' '' \<notin> set t"
proof (induction s arbitrary: t)
  case Nil
  then show ?case by simp
next
  case (Cons c cs)
  then show ?case
    by (auto split: if_splits list.splits)
qed

lemma decimal_digit_value:
  "decimal_digit c \<Longrightarrow> digit_value c = Some (of_char c - 48)"
  by (simp add: decimal_digit_def digit_value_def Let_def)

lemma decimal_digit_radix: "decimal_digit c \<Longrightarrow> radix_digit 10 c"
  by (auto simp add: decimal_digit_value radix_digit_def decimal_digit_def)

lemma decimal_digit_not_special:
  assumes "decimal_digit c"
  shows "\<not> isStrWhiteSpace c" and "c \<noteq> CHR ''-''" and "c \<noteq> CHR ''+''"
    and "c \<noteq> CHR ''x''" and "c \<noteq> CHR ''X''"
  using assms by (auto simp add: decimal_digit_def isStrWhiteSpace_def)

lemma radix_value_decimal_aux:
  "\<forall>c \<in> set s. decimal_digit c \<Longrightarrow>
     foldl (\<lambda>a c. a * int 10 + int (the (digit_value c))) a0 s
       = foldl (\<lambda>a c. 10 * a + (int (of_char c) - 48)) a0 s"
proof (induction s arbitrary: a0)
  case Nil
  then show ?case by simp
next
  case (Cons c cs)
  then have d: "decimal_digit c" by simp
  then have "int (the (digit_value c)) = int (of_char c) - 48"
    by (simp add: decimal_digit_value decimal_digit_def of_nat_diff)
  with Cons show ?case by (simp add: mult.commute)
qed

lemma radix_value_decimal:
  "\<forall>c \<in> set s. decimal_digit c \<Longrightarrow> radix_value 10 s = decimal_value s"
  using radix_value_decimal_aux [of s 0] by (simp add: radix_value_def decimal_value_def)

lemma parseInt_decimal:
  assumes ne: "s \<noteq> []" and dig: "\<forall>c \<in> set s. decimal_digit c"
  shows "parseInt (Some s) = Number_value (of_int (decimal_value s))"
proof -
  from ne obtain c cs where s: "s = c # cs" by (cases s) auto
  with dig have c: "decimal_digit c" by simp
  have ws: "dropWhile isStrWhiteSpace s = s"
    using c s decimal_digit_not_special(1) by simp
  have sign: "take 1 s \<noteq> ''-''" "take 1 s \<noteq> ''+''"
    using c s decimal_digit_not_special(2,3) by auto
  have hex: "take 2 s \<noteq> ''0x''" "take 2 s \<noteq> ''0X''"
  proof -
    show "take 2 s \<noteq> ''0x''"
    proof (cases cs)
      case Nil
      with s show ?thesis by simp
    next
      case (Cons d ds)
      with dig s have "decimal_digit d" by simp
      then have "d \<noteq> CHR ''x''" by (rule decimal_digit_not_special(4))
      with s Cons show ?thesis by simp
    qed
    show "take 2 s \<noteq> ''0X''"
    proof (cases cs)
      case Nil
      with s show ?thesis by simp
    next
      case (Cons d ds)
      with dig s have "decimal_digit d" by simp
      then have "d \<noteq> CHR ''X''" by (rule decimal_digit_not_special(5))
      with s Cons show ?thesis by simp
    qed
  qed
  have tw: "takeWhile (radix_digit 10) s = s"
    using dig decimal_digit_radix by (simp add: takeWhile_eq_all_conv)
  show ?thesis
    using sign hex ne radix_value_decimal [OF dig]
    by (simp add: parseInt_def toString_def Let_def ws tw)
qed

lemma parseInt_undefined: "parseInt None = NaN"
  by (simp add: parseInt_def toString_def Let_def isStrWhiteSpace_def radix_digit_def digit_value_def)

lemma radix_digit_10: "radix_digit 10 c \<Longrightarrow> decimal_digit c"
  by (auto simp add: radix_digit_def digit_value_def decimal_digit_def Let_def
      split: if_splits option.splits)

lemma decimal_value_nonneg_aux:
  "0 \<le> a0 \<Longrightarrow> \<forall>c \<in> set s. decimal_digit c \<Longrightarrow>
     0 \<le> foldl (\<lambda>a c. 10 * a + (int (of_char c) - 48)) a0 s"
proof (induction s arbitrary: a0)
  case Nil
  then show ?case by simp
next
  case (Cons c cs)
  then have "decimal_digit c" by simp
  then have "48 \<le> int (of_char c)" by (simp add: decimal_digit_def)
  with Cons.prems(1) have "0 \<le> 10 * a0 + (int (of_char c) - 48)" by simp
  with Cons show ?case by simp
qed

lemma decimal_value_nonneg: "\<forall>c \<in> set s. decimal_digit c \<Longrightarrow> 0 \<le> decimal_value s"
  using decimal_value_nonneg_aux [of 0 s] by (simp add: decimal_value_def)

text \<open>A token without a decimal digit has no number to read.\<close>

lemma no_digit_prefix:
  assumes "\<forall>c \<in> set U. \<not> decimal_digit c"
  shows "take 2 U \<noteq> ''0x''" and "take 2 U \<noteq> ''0X''"
    and "takeWhile (radix_digit 10) U = []"
proof -
  have zero: "decimal_digit CHR ''0''" by (simp add: decimal_digit_def)
  show "take 2 U \<noteq> ''0x''"
  proof
    assume "take 2 U = ''0x''"
    then have "CHR ''0'' \<in> set (take 2 U)" by simp
    then have "CHR ''0'' \<in> set U" by (rule in_set_takeD)
    with assms zero show False by blast
  qed
  show "take 2 U \<noteq> ''0X''"
  proof
    assume "take 2 U = ''0X''"
    then have "CHR ''0'' \<in> set (take 2 U)" by simp
    then have "CHR ''0'' \<in> set U" by (rule in_set_takeD)
    with assms zero show False by blast
  qed
  show "takeWhile (radix_digit 10) U = []"
  proof (cases U)
    case Nil
    then show ?thesis by simp
  next
    case (Cons c cs)
    with assms have "\<not> decimal_digit c" by simp
    then have "\<not> radix_digit 10 c" using radix_digit_10 by blast
    with Cons show ?thesis by simp
  qed
qed

lemma parseInt_no_digit:
  assumes "\<forall>c \<in> set t. \<not> decimal_digit c"
  shows "parseInt (Some t) = NaN"
proof -
  let ?S = "dropWhile isStrWhiteSpace t"
  have s: "\<forall>c \<in> set ?S. \<not> decimal_digit c"
    using assms by (meson set_dropWhileD)
  have d: "\<forall>c \<in> set (drop (Suc 0) ?S). \<not> decimal_digit c"
    using s by (meson in_set_dropD)
  note a = no_digit_prefix [OF s] and b = no_digit_prefix [OF d]
  show ?thesis
    by (simp add: parseInt_def toString_def Let_def a b)
qed


section \<open>Properties of the mention parser and the handler\<close>

lemma mention_not_Nil: "mention b \<noteq> []"
  by (simp add: mention_def)

lemma mention_not_me: "mention b \<noteq> ''me''"
  by (simp add: mention_def)

lemma mention_starts: "starts_with ''<@'' (mention b)"
  by (simp add: mention_def starts_with_def)

lemma commands_lookup_mention: "commands_lookup (mention b) = None"
  by (simp add: commands_lookup_def commands_def object_prototype_keys_def mention_def)

lemma isCalled_tokens:
  "split_sp (msg_text m) = mention b # t1 # rest \<Longrightarrow> t1 \<noteq> [] \<Longrightarrow>
     isCalled b m = Some (mention b # t1 # rest)"
  by (simp add: isCalled_def js_index_def truthy_def)

lemma isCalled_SomeD:
  assumes "isCalled b m = Some msgArr"
  shows "msgArr = split_sp (msg_text m) \<and> (\<exists>t1 rest. msgArr = mention b # t1 # rest \<and> t1 \<noteq> [])"
proof -
  from assms have eq: "msgArr = split_sp (msg_text m)"
    and t: "truthy (js_index msgArr 1)" and h: "js_index msgArr 0 = Some (mention b)"
    by (auto simp: isCalled_def Let_def split: if_splits)
  from t have len: "1 < length msgArr" and ne: "msgArr ! 1 \<noteq> []"
    by (auto simp: truthy_def js_index_def split: if_splits)
  from len obtain a t1 rest where shape: "msgArr = a # t1 # rest"
    by (cases msgArr; cases "tl msgArr") auto
  from h shape have "a = mention b" by (simp add: js_index_def)
  with shape ne eq show ?thesis by simp
qed

lemma isCalled_iff:
  "isCalled b m \<noteq> None \<longleftrightarrow> (\<exists>t1 rest. split_sp (msg_text m) = mention b # t1 # rest \<and> t1 \<noteq> [])"
  using isCalled_SomeD [of b m] isCalled_tokens [of m b] by (cases "isCalled b m") auto

lemma self_mention_run:
  assumes "split_sp (msg_text m) = mention b # mention b # rest"
  shows "getMsgTag b m = (Inr TagNull, [SendMessage (Some denial) (msg_channel m)])"
    and "parseCommand b m = None"
    and "run b e m = (Inr (), [SendMessage (Some denial) (msg_channel m)])"
proof -
  have called: "isCalled b m = Some (mention b # mention b # rest)"
    using isCalled_tokens [OF assms mention_not_Nil] .
  have idx: "js_index (split_sp (msg_text m)) 1 = Some (mention b)"
    using assms by (simp add: js_index_def)
  show tag: "getMsgTag b m = (Inr TagNull, [SendMessage (Some denial) (msg_channel m)])"
    using called idx mention_not_me [of b] mention_starts [of b]
    by (simp add: getMsgTag_def Let_def deny_def)
  show cmd: "parseCommand b m = None"
    using called commands_lookup_mention [of b] mention_not_Nil [of b]
    by (simp add: parseCommand_def js_index_def truthy_def toString_def Let_def)
  show "run b e m = (Inr (), [SendMessage (Some denial) (msg_channel m)])"
    using tag cmd by (simp add: run_def)
qed

lemma getMsgTag_called:
  assumes "split_sp (msg_text m) = mention b # t1 # rest" and "t1 \<noteq> []"
  shows "getMsgTag b m =
     (if t1 = ''me'' then
        (Inr (TagParams \<lparr>user = msg_user m, channel = msg_channel m,
             limit = or_default (parseInt (js_index rest 0)) (config_limit b)\<rparr>), [])
      else if starts_with ''<@'' t1 then
        (if t1 = mention b then (Inr TagNull, deny (msg_channel m))
         else (Inr (TagParams \<lparr>user = strip_non_alnum t1, channel = msg_channel m,
             limit = or_default (parseInt (js_index rest 0)) (config_limit b)\<rparr>), []))
      else (Inr TagFalse, []))"
proof -
  have called: "isCalled b m \<noteq> None"
    using isCalled_tokens [OF assms] by simp
  have idx: "js_index (split_sp (msg_text m)) 1 = Some t1"
    "js_index (split_sp (msg_text m)) 2 = js_index rest 0"
    using assms by (simp_all add: js_index_def)
  show ?thesis using called idx by (simp add: getMsgTag_def Let_def)
qed

lemma getMsgTag_not_called:
  "isCalled b m = None \<Longrightarrow> getMsgTag b m = (Inr TagFalse, [])"
  by (simp add: getMsgTag_def Let_def)

lemma getMsgTag_NullD:
  assumes "fst (getMsgTag b m) = Inr TagNull"
  shows "\<exists>rest. split_sp (msg_text m) = mention b # mention b # rest"
proof (cases "isCalled b m")
  case None
  with assms show ?thesis by (simp add: getMsgTag_not_called)
next
  case (Some msgArr)
  from isCalled_SomeD [OF Some] obtain t1 rest where
    sh: "split_sp (msg_text m) = mention b # t1 # rest" and ne: "t1 \<noteq> []" by auto
  from assms getMsgTag_called [OF sh ne] have "t1 = mention b"
    by (auto split: if_splits)
  with sh show ?thesis by simp
qed

lemma getMsgTag_FalseD:
  assumes "fst (getMsgTag b m) = Inr TagFalse"
  shows "getMsgTag b m = (Inr TagFalse, [])"
proof (cases "isCalled b m")
  case None
  then show ?thesis by (simp add: getMsgTag_not_called)
next
  case (Some msgArr)
  from isCalled_SomeD [OF Some] obtain t1 rest where
    sh: "split_sp (msg_text m) = mention b # t1 # rest" and ne: "t1 \<noteq> []" by auto
  from assms getMsgTag_called [OF sh ne] show ?thesis
    by (auto split: if_splits)
qed

lemma getMsgTag_no_throw: "\<exists>t. fst (getMsgTag b m) = Inr t"
proof (cases "isCalled b m")
  case None
  then show ?thesis by (simp add: getMsgTag_not_called)
next
  case (Some msgArr)
  from isCalled_SomeD [OF Some] obtain t1 rest where
    sh: "split_sp (msg_text m) = mention b # t1 # rest" and ne: "t1 \<noteq> []" by auto
  show ?thesis by (simp add: getMsgTag_called [OF sh ne])
qed

lemma commands_lookup_in_keys:
  assumes "commands_lookup k = Some c"
  shows "k \<in> set (map fst commands @ object_prototype_keys)"
proof (cases "map_of commands k")
  case None
  with assms have "k \<in> set object_prototype_keys"
    by (simp add: commands_lookup_def split: if_splits)
  then show ?thesis by simp
next
  case (Some c')
  then have "(k, c') \<in> set commands" by (rule map_of_SomeD)
  then have "k \<in> fst ` set commands" by force
  then show ?thesis by simp
qed

lemma command_keys_plain:
  "k \<in> set (map fst commands @ object_prototype_keys) \<Longrightarrow>
     k \<noteq> ''me'' \<and> \<not> starts_with ''<@'' k"
  unfolding commands_def object_prototype_keys_def starts_with_def
  by (elim UnE disjE | simp | erule disjE)+

lemma commands_lookup_key:
  "commands_lookup k = Some c \<Longrightarrow> k \<noteq> ''me'' \<and> \<not> starts_with ''<@'' k"
  by (rule command_keys_plain [OF commands_lookup_in_keys])

lemma parseCommand_SomeD:
  assumes "parseCommand b m = Some iv"
  shows "\<exists>t1 rest c. split_sp (msg_text m) = mention b # t1 # rest \<and> t1 \<noteq> []
           \<and> commands_lookup t1 = Some c \<and> cmd_method iv = cmd_method c
           \<and> description iv = description c \<and> args iv = rest"
proof (cases "isCalled b m")
  case None
  with assms show ?thesis by (simp add: parseCommand_def)
next
  case (Some msgArr)
  from isCalled_SomeD [OF Some] obtain t1 rest where
    sh: "split_sp (msg_text m) = mention b # t1 # rest" and ne: "t1 \<noteq> []"
    and arr: "msgArr = split_sp (msg_text m)" by auto
  from assms Some arr sh obtain c where "commands_lookup t1 = Some c"
    and "iv = \<lparr>cmd_method = cmd_method c, description = description c, args = rest\<rparr>"
    by (auto simp: parseCommand_def js_index_def truthy_def toString_def Let_def mention_not_Nil
        split: option.splits if_splits)
  with sh ne show ?thesis by auto
qed

lemma no_Insert_generate: "Insert d \<notin> set (generate b e p)"
  by (auto simp: generate_def generateChain_def postChain_def deny_def Let_def split: sum.splits)

lemma no_Insert_exec: "Insert d \<notin> set (snd (exec e mn m as))"
  by (auto simp: exec_def call_method_def purge_def helpCommand_def Let_def
      split: sum.splits option.splits)

text \<open>The completion callback of \<open>save\<close> throws exactly when the driver reports an
  error; \<open>saveMessage\<close> itself has no failing branch.\<close>

lemma save_callback_throws: "err \<noteq> [] \<Longrightarrow> save_callback (Some err) = Inl (Error err)"
  by (simp add: save_callback_def truthy_def toString_def)

lemma save_callback_returns: "save_callback None = Inr ()"
  by (simp add: save_callback_def truthy_def)

text \<open>
  Claim C1, amended. When the text splits into the bot's own mention, the token \<open>me\<close>
  and further tokens, the parser returns a request for the message's author on the
  message's channel, and sends nothing. Its limit is the base-10 value of token 2 when
  token 2 consists of decimal digits only and that value is neither 0 nor \<open>2^53\<close> or
  more; it is the configured limit when token 2 is absent, contains no decimal digit, or
  consists of decimal digits only with value 0.
\<close>

theorem getMsgTag_me:
  assumes "split_sp (msg_text m) = mention b # ''me'' # rest"
  shows "\<exists>p. getMsgTag b m = (Inr (TagParams p), [])
           \<and> user p = msg_user m \<and> channel p = msg_channel m
           \<and> (rest = [] \<longrightarrow> limit p = Num (of_int (config_limit b)))
           \<and> (\<forall>t ts. rest = t # ts \<and> (\<forall>c \<in> set t. \<not> decimal_digit c) \<longrightarrow>
                 limit p = Num (of_int (config_limit b)))
           \<and> (\<forall>t ts. rest = t # ts \<and> t \<noteq> [] \<and> (\<forall>c \<in> set t. decimal_digit c)
                   \<and> decimal_value t = 0 \<longrightarrow>
                 limit p = Num (of_int (config_limit b)))
           \<and> (\<forall>t ts. rest = t # ts \<and> t \<noteq> [] \<and> (\<forall>c \<in> set t. decimal_digit c)
                   \<and> decimal_value t \<noteq> 0 \<and> decimal_value t < 2 ^ 53 \<longrightarrow>
                 limit p = Num (of_int (decimal_value t)))"
proof -
  let ?d = "Num (of_int (config_limit b))"
  let ?l = "or_default (parseInt (js_index rest 0)) (config_limit b)"
  let ?p = "\<lparr>user = msg_user m, channel = msg_channel m, limit = ?l\<rparr>"
  have me: "''me'' \<noteq> []" by simp
  have res: "getMsgTag b m = (Inr (TagParams ?p), [])"
    using getMsgTag_called [OF assms me] by simp
  have absent: "rest = [] \<longrightarrow> ?l = ?d"
    by (simp add: js_index_def parseInt_undefined or_default_def)
  have nodigit: "?l = ?d" if "rest = t # ts" and "\<forall>c \<in> set t. \<not> decimal_digit c" for t ts
    using that by (simp add: js_index_def parseInt_no_digit or_default_def)
  have zero: "?l = ?d"
    if "rest = t # ts" and "t \<noteq> []" and "\<forall>c \<in> set t. decimal_digit c"
      and "decimal_value t = 0" for t ts
  proof -
    have "parseInt (Some t) = Num 0"
      using that by (simp add: parseInt_decimal Number_value_def)
    with that(1) show ?thesis by (simp add: js_index_def or_default_def)
  qed
  have val: "?l = Num (of_int (decimal_value t))"
    if "rest = t # ts" and "t \<noteq> []" and d: "\<forall>c \<in> set t. decimal_digit c"
      and nz: "decimal_value t \<noteq> 0" and small: "decimal_value t < 2 ^ 53" for t ts
  proof -
    have "parseInt (Some t) = Number_value (of_int (decimal_value t))"
      using that by (simp add: parseInt_decimal)
    also have "\<dots> = Num (of_int (decimal_value t))"
      using decimal_value_nonneg [OF d] small by (rule Number_value_nat_exact)
    finally have "parseInt (Some t) = Num (of_int (decimal_value t))" .
    with that(1) nz show ?thesis by (simp add: js_index_def or_default_def)
  qed
  have "user ?p = msg_user m \<and> channel ?p = msg_channel m
        \<and> (rest = [] \<longrightarrow> limit ?p = ?d)
        \<and> (\<forall>t ts. rest = t # ts \<and> (\<forall>c \<in> set t. \<not> decimal_digit c) \<longrightarrow> limit ?p = ?d)
        \<and> (\<forall>t ts. rest = t # ts \<and> t \<noteq> [] \<and> (\<forall>c \<in> set t. decimal_digit c)
                \<and> decimal_value t = 0 \<longrightarrow> limit ?p = ?d)
        \<and> (\<forall>t ts. rest = t # ts \<and> t \<noteq> [] \<and> (\<forall>c \<in> set t. decimal_digit c)
                \<and> decimal_value t \<noteq> 0 \<and> decimal_value t < 2 ^ 53 \<longrightarrow>
              limit ?p = Num (of_int (decimal_value t)))"
    using absent nodigit zero val by (simp only: params.simps) blast
  with res show ?thesis by blast
qed

theorem getMsgTag_me_witness:
  "getMsgTag sample_bot (sample_msg ''<@B> me 10'' None)
     = (Inr (TagParams \<lparr>user = ''U'', channel = ''C'', limit = Num 10\<rparr>), [])"
proof -
  have "split_sp (msg_text (sample_msg ''<@B> me 10'' None)) = mention sample_bot # ''me'' # [''10'']"
    by (simp add: sample_msg_def sample_bot_def mention_def toString_def)
  from getMsgTag_me [OF this] obtain p where
    p: "getMsgTag sample_bot (sample_msg ''<@B> me 10'' None) = (Inr (TagParams p), [])"
      "user p = msg_user (sample_msg ''<@B> me 10'' None)"
      "channel p = msg_channel (sample_msg ''<@B> me 10'' None)"
      "\<forall>t ts. [''10''] = t # ts \<and> t \<noteq> [] \<and> (\<forall>c \<in> set t. decimal_digit c)
                   \<and> decimal_value t \<noteq> 0 \<and> decimal_value t < 2 ^ 53 \<longrightarrow>
                 limit p = Num (of_int (decimal_value t))"
    by (elim exE conjE) (rule that, assumption+)
  have dv: "decimal_value ''10'' = 10" by (simp add: decimal_value_def)
  have dd: "\<forall>c \<in> set ''10''. decimal_digit c" by (simp add: decimal_digit_def)
  have "limit p = Num (of_int (decimal_value ''10''))"
    by (rule p(4) [rule_format, of "''10''" "[]"]) (simp add: dv dd)
  then have l: "limit p = Num 10" by (simp only: dv of_int_numeral)
  have u: "user p = ''U''" and c: "channel p = ''C''"
    using p(2,3) by (simp_all add: sample_msg_def)
  have "p = \<lparr>user = ''U'', channel = ''C'', limit = Num 10\<rparr>"
    using u c l by (cases p) simp
  with p(1) show ?thesis by (simp only:)
qed

text \<open>
  Claim C1, as stated, fails at the text \<open><@B> me 0\<close>: token 2 is present and its base-10
  value is 0, yet the limit of the request is the configured default 150. It fails as
  well at \<open><@B> me 9007199254740993\<close>, where the limit is the double 9007199254740992.
\<close>

theorem getMsgTag_me_zero_counterexample:
  "split_sp (msg_text (sample_msg ''<@B> me 0'' None)) = [mention sample_bot, ''me'', ''0'']
   \<and> decimal_digit CHR ''0'' \<and> decimal_value ''0'' = 0
   \<and> config_limit sample_bot = 150
   \<and> getMsgTag sample_bot (sample_msg ''<@B> me 0'' None)
       = (Inr (TagParams \<lparr>user = ''U'', channel = ''C'', limit = Num 150\<rparr>), [])
   \<and> decimal_value ''9007199254740993'' = 9007199254740993
   \<and> getMsgTag sample_bot (sample_msg ''<@B> me 9007199254740993'' None)
       = (Inr (TagParams \<lparr>user = ''U'', channel = ''C'', limit = Num 9007199254740992\<rparr>), [])"
proof -
  have me: "''me'' \<noteq> []" by simp
  have sp: "split_sp (msg_text (sample_msg ''<@B> me 0'' None)) = mention sample_bot # ''me'' # [''0'']"
    by (simp add: sample_msg_def sample_bot_def mention_def toString_def)
  have d0: "\<forall>c \<in> set ''0''. decimal_digit c" by (simp add: decimal_digit_def)
  have v0: "decimal_value ''0'' = 0" by (simp add: decimal_value_def)
  have pz: "parseInt (Some ''0'') = Num 0"
    using parseInt_decimal [OF _ d0] v0 by (simp add: Number_value_def)
  have t0: "getMsgTag sample_bot (sample_msg ''<@B> me 0'' None)
       = (Inr (TagParams \<lparr>user = ''U'', channel = ''C'', limit = Num 150\<rparr>), [])"
    using getMsgTag_called [OF sp me] pz
    by (simp add: js_index_def or_default_def sample_msg_def sample_bot_def)
  let ?big = "''9007199254740993''"
  have spb: "split_sp (msg_text (sample_msg ''<@B> me 9007199254740993'' None))
               = mention sample_bot # ''me'' # [?big]"
    by (simp add: sample_msg_def sample_bot_def mention_def toString_def)
  have db: "\<forall>c \<in> set ?big. decimal_digit c" by (simp add: decimal_digit_def)
  have vb: "decimal_value ?big = 9007199254740993" by (simp add: decimal_value_def)
  have pb: "parseInt (Some ?big) = Num 9007199254740992"
    using parseInt_decimal [OF _ db] by (simp only: vb of_int_numeral Number_value_2_53_1) simp
  have tb: "getMsgTag sample_bot (sample_msg ''<@B> me 9007199254740993'' None)
       = (Inr (TagParams \<lparr>user = ''U'', channel = ''C'', limit = Num 9007199254740992\<rparr>), [])"
    using getMsgTag_called [OF spb me] pb
    by (simp add: js_index_def or_default_def sample_msg_def sample_bot_def)
  from sp v0 t0 vb tb show ?thesis
    by (simp add: decimal_digit_def sample_bot_def)
qed

text \<open>
  Claim C2. When the first two tokens of the text are both the bot's own mention, the
  parser returns \<open>null\<close> after sending the denial once to the message's channel, and
  that one message is all the handler does: no store query is made.
\<close>

theorem self_mention_denied:
  assumes "split_sp (msg_text m) = mention b # mention b # rest"
  shows "getMsgTag b m = (Inr TagNull, [SendMessage (Some denial) (msg_channel m)])
         \<and> run b e m = (Inr (), [SendMessage (Some denial) (msg_channel m)])
         \<and> (\<forall>u n. Find u n \<notin> set (snd (run b e m)))"
  using self_mention_run [OF assms] by simp

theorem self_mention_denied_witness:
  "getMsgTag sample_bot (sample_msg ''<@B> <@B>'' None) = (Inr TagNull, [SendMessage (Some denial) ''C''])
   \<and> run sample_bot (sample_env []) (sample_msg ''<@B> <@B>'' None)
     = (Inr (), [SendMessage (Some denial) ''C''])"
proof -
  have sp: "split_sp (msg_text (sample_msg ''<@B> <@B>'' None)) = mention sample_bot # mention sample_bot # []"
    by (simp add: sample_msg_def sample_bot_def mention_def toString_def)
  have c: "msg_channel (sample_msg ''<@B> <@B>'' None) = ''C''"
    by (simp add: sample_msg_def)
  from self_mention_denied [OF sp, where e = "sample_env []"] show ?thesis
    by (simp only: c)
qed


section \<open>Properties of the dispatcher and the ingestion filter\<close>

text \<open>
  Claim C6. For a resolved command whose argument list contains \<open>-h\<close> or \<open>--help\<close> at
  any position, \<open>_exec\<close> sends the description of the command table's entry for the
  second token of the message text, which is the description of the resolved command,
  and nothing else, whatever method name it was given; the handler run on that message
  does exactly this.
\<close>

theorem exec_help_flag:
  assumes "parseCommand b m = Some iv"
    and "''-h'' \<in> set (args iv) \<or> ''--help'' \<in> set (args iv)"
  shows "\<exists>t1 c. js_index (split_sp (msg_text m)) 1 = Some t1 \<and> commands_lookup t1 = Some c
           \<and> description c = description iv
           \<and> exec e methodName m (args iv) = (Inr (), [SendMessage (description c) (msg_channel m)])
           \<and> run b e m = (Inr (), [SendMessage (description c) (msg_channel m)])"
proof -
  from parseCommand_SomeD [OF assms(1)] obtain t1 rest c where
    sh: "split_sp (msg_text m) = mention b # t1 # rest" and ne: "t1 \<noteq> []"
    and c: "commands_lookup t1 = Some c" and d: "description iv = description c"
    and a: "args iv = rest" by blast
  have idx: "js_index (split_sp (msg_text m)) 1 = Some t1"
    using sh by (simp add: js_index_def)
  have ex: "exec e mn m (args iv) = (Inr (), [SendMessage (description c) (msg_channel m)])" for mn
    using assms(2) idx c by (auto simp add: exec_def toString_def Let_def)
  have tag: "getMsgTag b m = (Inr TagFalse, [])"
    using getMsgTag_called [OF sh ne] commands_lookup_key [OF c] by simp
  have "run b e m = (Inr (), [SendMessage (description c) (msg_channel m)])"
    using tag assms(1) ex [of "cmd_method iv"] by (simp add: run_def)
  with idx c d ex show ?thesis by auto
qed

theorem exec_help_flag_witness:
  "run sample_bot (sample_env []) (sample_msg ''<@B> purge now -h please'' None)
     = (Inr (), [SendMessage (Some (''Purges all of a user'' @ [CHR 0x27] @ ''s messages from the database'')) ''C''])"
proof -
  let ?m = "sample_msg ''<@B> purge now -h please'' None"
  let ?iv = "\<lparr>cmd_method = Some ''_purge'',
       description = Some (''Purges all of a user'' @ [CHR 0x27] @ ''s messages from the database''),
       args = [''now'', ''-h'', ''please'']\<rparr>"
  have p: "parseCommand sample_bot ?m = Some ?iv"
    by (simp add: parseCommand_def isCalled_def sample_msg_def sample_bot_def mention_def
        toString_def js_index_def truthy_def Let_def commands_lookup_def commands_def)
  have h: "''-h'' \<in> set (args ?iv) \<or> ''--help'' \<in> set (args ?iv)" by simp
  from exec_help_flag [OF p h, where e = "sample_env []" and methodName = None] obtain t1 c where
    "js_index (split_sp (msg_text ?m)) 1 = Some t1" "commands_lookup t1 = Some c"
    "description c = description ?iv"
    "run sample_bot (sample_env []) ?m = (Inr (), [SendMessage (description c) (msg_channel ?m)])"
    by blast
  then show ?thesis by (simp add: sample_msg_def)
qed

text \<open>The save branch of the handler: it returns normally, whatever the store will
  answer, and its one effect is the call of \<open>save\<close>.\<close>

lemma run_saves:
  assumes "fst (getMsgTag b m) = Inr TagFalse" and "parseCommand b m = None"
    and "msg_subtype m \<noteq> Some ''file_share''"
  shows "run b e m = (Inr (), saveMessage m)"
  using getMsgTag_FalseD [OF assms(1)] assms(2,3)
  by (simp add: run_def warrantsSave_def truthy_def Let_def)

lemma run_skips_file_share:
  assumes "fst (getMsgTag b m) = Inr TagFalse" and "parseCommand b m = None"
    and "msg_subtype m = Some ''file_share''"
  shows "run b e m = (Inr (), [])"
  using getMsgTag_FalseD [OF assms(1)] assms(2,3)
  by (simp add: run_def warrantsSave_def truthy_def Let_def)

lemma not_addressed:
  assumes "js_index (split_sp (msg_text m)) 0 \<noteq> Some (mention b)"
  shows "fst (getMsgTag b m) = Inr TagFalse" and "parseCommand b m = None"
proof -
  have "isCalled b m = None" using assms by (simp add: isCalled_def Let_def)
  then show "fst (getMsgTag b m) = Inr TagFalse" and "parseCommand b m = None"
    by (simp_all add: getMsgTag_not_called parseCommand_def)
qed

lemma sample_msg_date:
  "new_Date (number_times (Number_value (msg_ts (sample_msg t st))) (Num 1000)) = Date 4350"
  by (simp only: sample_msg_def msg.select_convs Number_value_4_35_times_1000 new_Date_4350)

lemma sample_msg_saved:
  "saveMessage (sample_msg t st) =
     [Insert \<lparr>d_type = ''message'', d_channel = ''C'', d_user = ''U'', d_text = t,
              d_ts = Date 4350, d_team = ''T''\<rparr>]"
  unfolding saveMessage_def sample_msg_date
  by (simp only: sample_msg_def msg.select_convs)

lemma sample_msg_plain:
  assumes "take 4 t \<noteq> ''<@B>''"
  shows "js_index (split_sp (msg_text (sample_msg t st))) 0 \<noteq> Some (mention sample_bot)"
proof
  assume a: "js_index (split_sp (msg_text (sample_msg t st))) 0 = Some (mention sample_bot)"
  have m: "mention sample_bot = ''<@B>''"
    by (simp add: mention_def sample_bot_def toString_def)
  have t: "msg_text (sample_msg t st) = t" by (simp add: sample_msg_def)
  obtain x xs where sp: "split_sp t = x # xs"
    using split_sp_not_Nil [of t] by (cases "split_sp t") auto
  with a m t have x: "x = ''<@B>''" by (simp add: js_index_def)
  have "js_join '' '' (split_sp t) = t" by (rule js_join_split_sp)
  with sp x have "take 4 t = ''<@B>''" by (cases xs) auto
  with assms show False by simp
qed

text \<open>A token that names a property inherited by the command table is taken for a
  command: the handler throws and nothing is stored.\<close>

lemma inherited_key_throws:
  "fst (getMsgTag sample_bot (sample_msg ''<@B> toString'' None)) = Inr TagFalse
   \<and> parseCommand sample_bot (sample_msg ''<@B> toString'' None)
       = Some \<lparr>cmd_method = None, description = None, args = []\<rparr>
   \<and> run sample_bot e (sample_msg ''<@B> toString'' None) = (Inl TypeError, [])"
proof -
  let ?m = "sample_msg ''<@B> toString'' None"
  have sp: "split_sp (msg_text ?m) = mention sample_bot # ''toString'' # []"
    by (simp add: sample_msg_def sample_bot_def mention_def toString_def)
  have ne: "''toString'' \<noteq> []" by simp
  have tag: "getMsgTag sample_bot ?m = (Inr TagFalse, [])"
    using getMsgTag_called [OF sp ne] by (simp add: starts_with_def)
  have look: "commands_lookup ''toString'' = Some \<lparr>cmd_method = None, description = None\<rparr>"
    by (simp add: commands_lookup_def commands_def object_prototype_keys_def)
  have cmd: "parseCommand sample_bot ?m
               = Some \<lparr>cmd_method = None, description = None, args = []\<rparr>"
    using isCalled_tokens [OF sp ne] look mention_not_Nil [of sample_bot]
    by (simp add: parseCommand_def js_index_def truthy_def toString_def Let_def)
  have "run sample_bot e ?m = (Inl TypeError, [])"
    using tag cmd by (simp add: run_def exec_def call_method_def)
  with tag cmd show ?thesis by simp
qed

text \<open>
  Claim C7, as stated, fails at the text \<open><@B> <@B>\<close> with no subtype: the parser's
  result is \<open>null\<close>, not a generation request, no command is resolved, and the message
  is not persisted; the only effect is the denial.
\<close>

theorem ingestion_counterexample:
  "fst (getMsgTag sample_bot (sample_msg ''<@B> <@B>'' None)) = Inr TagNull
   \<and> parseCommand sample_bot (sample_msg ''<@B> <@B>'' None) = None
   \<and> msg_subtype (sample_msg ''<@B> <@B>'' None) = None
   \<and> snd (run sample_bot (sample_env []) (sample_msg ''<@B> <@B>'' None))
        = [SendMessage (Some denial) ''C'']"
proof -
  have "split_sp (msg_text (sample_msg ''<@B> <@B>'' None)) = mention sample_bot # mention sample_bot # []"
    by (simp add: sample_msg_def sample_bot_def mention_def toString_def)
  from self_mention_run [OF this] show ?thesis
    by (simp add: sample_msg_def)
qed

text \<open>
  Claim C7, amended. For every inbound message on which the parser returns \<open>false\<close> and
  \<open>_parseCommand\<close> returns \<open>false\<close>: with subtype \<open>file_share\<close> nothing is persisted; with
  any other subtype or none, and a timestamp for which \<open>new Date(ts * 1000)\<close> is a valid
  date, the one effect is the insert of the message's document with that date as its
  timestamp.
\<close>

theorem ingestion_filter:
  assumes "fst (getMsgTag b m) = Inr TagFalse" and "parseCommand b m = None"
  shows "(msg_subtype m = Some ''file_share'' \<longrightarrow> run b e m = (Inr (), []))
       \<and> (\<forall>t. msg_subtype m \<noteq> Some ''file_share''
               \<and> new_Date (number_times (Number_value (msg_ts m)) (Num 1000)) = Date t \<longrightarrow>
            run b e m = (Inr (), [Insert \<lparr>d_type = msg_type m, d_channel = msg_channel m,
                d_user = msg_user m, d_text = msg_text m, d_ts = Date t,
                d_team = msg_team m\<rparr>]))"
proof (intro conjI impI allI)
  assume "msg_subtype m = Some ''file_share''"
  then show "run b e m = (Inr (), [])"
    using assms by (intro run_skips_file_share)
next
  fix t
  assume a: "msg_subtype m \<noteq> Some ''file_share''
               \<and> new_Date (number_times (Number_value (msg_ts m)) (Num 1000)) = Date t"
  then have "run b e m = (Inr (), saveMessage m)"
    using assms by (intro run_saves) simp_all
  with a show "run b e m = (Inr (), [Insert \<lparr>d_type = msg_type m, d_channel = msg_channel m,
                d_user = msg_user m, d_text = msg_text m, d_ts = Date t,
                d_team = msg_team m\<rparr>])"
    by (simp add: saveMessage_def)
qed

theorem ingestion_filter_witness:
  "run sample_bot (sample_env []) (sample_msg ''hello there'' (Some ''file_share'')) = (Inr (), [])
   \<and> run sample_bot (sample_env []) (sample_msg ''hello there'' (Some ''me_message''))
       = (Inr (), [Insert \<lparr>d_type = ''message'', d_channel = ''C'', d_user = ''U'',
            d_text = ''hello there'', d_ts = Date 4350, d_team = ''T''\<rparr>])
   \<and> run sample_bot (sample_env []) (sample_msg ''hello there'' None)
       = (Inr (), [Insert \<lparr>d_type = ''message'', d_channel = ''C'', d_user = ''U'',
            d_text = ''hello there'', d_ts = Date 4350, d_team = ''T''\<rparr>])"
proof -
  have p: "js_index (split_sp (msg_text (sample_msg ''hello there'' st))) 0
             \<noteq> Some (mention sample_bot)" for st
    by (rule sample_msg_plain) simp
  have s: "msg_subtype (sample_msg ''hello there'' st) = st" for st
    by (simp only: sample_msg_def msg.select_convs)
  have fields: "msg_type (sample_msg ''hello there'' st) = ''message''"
    "msg_channel (sample_msg ''hello there'' st) = ''C''"
    "msg_user (sample_msg ''hello there'' st) = ''U''"
    "msg_text (sample_msg ''hello there'' st) = ''hello there''"
    "msg_team (sample_msg ''hello there'' st) = ''T''" for st
    by (simp_all only: sample_msg_def msg.select_convs)
  have a: "run sample_bot (sample_env []) (sample_msg ''hello there'' (Some ''file_share''))
             = (Inr (), [])"
    by (rule ingestion_filter [OF not_addressed [OF p [of "Some ''file_share''"]],
          where e = "sample_env []", THEN conjunct1, THEN mp]) (simp only: s)
  have b: "run sample_bot (sample_env []) (sample_msg ''hello there'' st)
       = (Inr (), [Insert \<lparr>d_type = ''message'', d_channel = ''C'', d_user = ''U'',
            d_text = ''hello there'', d_ts = Date 4350, d_team = ''T''\<rparr>])"
    if "st \<noteq> Some ''file_share''" for st
    using ingestion_filter [OF not_addressed [OF p [of st]], where e = "sample_env []",
        THEN conjunct2, rule_format, of 4350] that
    by (simp only: s fields sample_msg_date simp_thms)
  have "Some ''me_message'' \<noteq> Some ''file_share''" by simp
  from a b [OF this] b [of None] show ?thesis by simp
qed

text \<open>
  Claim C10. When the parser returns \<open>null\<close>, no command is resolved and the handler's
  only effect is the denial; and whenever the handler inserts a document, the parser had
  returned exactly \<open>false\<close> and no command was resolved.
\<close>

theorem null_tag_skips_command_and_store:
  "(fst (getMsgTag b m) = Inr TagNull \<longrightarrow>
       parseCommand b m = None
     \<and> run b e m = (Inr (), [SendMessage (Some denial) (msg_channel m)]))
   \<and> (\<forall>d. Insert d \<in> set (snd (run b e m)) \<longrightarrow>
         fst (getMsgTag b m) = Inr TagFalse \<and> parseCommand b m = None)"
proof (intro conjI impI allI)
  assume n: "fst (getMsgTag b m) = Inr TagNull"
  from getMsgTag_NullD [OF n] obtain rest where
    sh: "split_sp (msg_text m) = mention b # mention b # rest" ..
  show "parseCommand b m = None" by (rule self_mention_run(2) [OF sh])
  show "run b e m = (Inr (), [SendMessage (Some denial) (msg_channel m)])"
    by (rule self_mention_run(3) [OF sh])
next
  fix d
  assume ins: "Insert d \<in> set (snd (run b e m))"
  obtain t where t: "fst (getMsgTag b m) = Inr t"
    using getMsgTag_no_throw by blast
  show "fst (getMsgTag b m) = Inr TagFalse"
  proof (cases t)
    case TagFalse
    with t show ?thesis by simp
  next
    case TagNull
    with t have n: "fst (getMsgTag b m) = Inr TagNull" by simp
    from getMsgTag_NullD [OF n] obtain rest where
      sh: "split_sp (msg_text m) = mention b # mention b # rest" ..
    from self_mention_run(3) [OF sh, of e] ins show ?thesis by simp
  next
    case (TagParams p)
    with t obtain effs where g: "getMsgTag b m = (Inr (TagParams p), effs)"
      by (cases "getMsgTag b m") auto
    have "effs = []"
      using g by (auto simp: getMsgTag_def Let_def deny_def split: if_splits option.splits)
    with g ins no_Insert_generate [of d b e p] show ?thesis
      by (simp add: run_def)
  qed
  then have f: "getMsgTag b m = (Inr TagFalse, [])" by (rule getMsgTag_FalseD)
  show "parseCommand b m = None"
  proof (cases "parseCommand b m")
    case None
    then show ?thesis .
  next
    case (Some c)
    with f ins no_Insert_exec [of d e "cmd_method c" m "args c"] show ?thesis
      by (simp add: run_def split: prod.splits)
  qed
qed

theorem null_tag_skips_command_and_store_witness:
  "parseCommand sample_bot (sample_msg ''<@B> <@B> 5'' None) = None
   \<and> run sample_bot (sample_env []) (sample_msg ''<@B> <@B> 5'' None)
       = (Inr (), [SendMessage (Some denial) ''C''])"
proof -
  have n: "fst (getMsgTag sample_bot (sample_msg ''<@B> <@B> 5'' None)) = Inr TagNull"
    by (simp add: getMsgTag_def isCalled_def sample_msg_def sample_bot_def mention_def
        toString_def js_index_def truthy_def starts_with_def Let_def deny_def)
  have c: "msg_channel (sample_msg ''<@B> <@B> 5'' None) = ''C''"
    by (simp add: sample_msg_def)
  from null_tag_skips_command_and_store
         [where b = sample_bot and m = "sample_msg ''<@B> <@B> 5'' None" and e = "sample_env []",
          THEN conjunct1, THEN mp, OF n]
  show ?thesis by (simp only: c)
qed


section \<open>Properties of the stream of events\<close>

lemma event_loop_save_failure:
  "err \<noteq> [] \<Longrightarrow> event_loop b e (SaveCompleted (Some err) # evs) = (Inl (Error err), [])"
  by (simp add: handle_event_def save_callback_throws)

text \<open>
  Claim C8 fails on the code. The handler returns normally from the save branch before
  the insert's outcome exists, so a failed insert gives its caller no error; the error
  is thrown from the completion callback, ends the process, and the message that comes
  next is not handled. Here the insert of \<open>hello\<close> fails with \<open>E11000\<close> and \<open>again\<close> is never
  stored, where after a successful insert it is.
\<close>

theorem save_failure_ends_stream:
  "run sample_bot (sample_env []) (sample_msg ''hello'' None)
     = (Inr (), [Insert \<lparr>d_type = ''message'', d_channel = ''C'', d_user = ''U'',
                   d_text = ''hello'', d_ts = Date 4350, d_team = ''T''\<rparr>])
   \<and> event_loop sample_bot (sample_env [])
        [MessageEvent (sample_msg ''hello'' None), SaveCompleted (Some ''E11000''),
         MessageEvent (sample_msg ''again'' None)]
     = (Inl (Error ''E11000''),
        [Insert \<lparr>d_type = ''message'', d_channel = ''C'', d_user = ''U'',
                   d_text = ''hello'', d_ts = Date 4350, d_team = ''T''\<rparr>])
   \<and> event_loop sample_bot (sample_env [])
        [MessageEvent (sample_msg ''hello'' None), SaveCompleted None,
         MessageEvent (sample_msg ''again'' None)]
     = (Inr (),
        [Insert \<lparr>d_type = ''message'', d_channel = ''C'', d_user = ''U'',
                   d_text = ''hello'', d_ts = Date 4350, d_team = ''T''\<rparr>,
         Insert \<lparr>d_type = ''message'', d_channel = ''C'', d_user = ''U'',
                   d_text = ''again'', d_ts = Date 4350, d_team = ''T''\<rparr>])"
proof -
  have r: "run sample_bot (sample_env []) (sample_msg t None)
             = (Inr (), [Insert \<lparr>d_type = ''message'', d_channel = ''C'', d_user = ''U'',
                   d_text = t, d_ts = Date 4350, d_team = ''T''\<rparr>])"
    if "take 4 t \<noteq> ''<@B>''" for t
  proof -
    have "msg_subtype (sample_msg t None) \<noteq> Some ''file_share''"
      by (simp add: sample_msg_def)
    from run_saves [OF not_addressed [OF sample_msg_plain [OF that]] this]
    show ?thesis by (simp only: sample_msg_saved)
  qed
  have h: "run sample_bot (sample_env []) (sample_msg ''hello'' None)
             = (Inr (), [Insert \<lparr>d_type = ''message'', d_channel = ''C'', d_user = ''U'',
                   d_text = ''hello'', d_ts = Date 4350, d_team = ''T''\<rparr>])"
    by (rule r) simp
  have a: "run sample_bot (sample_env []) (sample_msg ''again'' None)
             = (Inr (), [Insert \<lparr>d_type = ''message'', d_channel = ''C'', d_user = ''U'',
                   d_text = ''again'', d_ts = Date 4350, d_team = ''T''\<rparr>])"
    by (rule r) simp
  have e: "''E11000'' \<noteq> []" by simp
  show ?thesis
    by (simp add: h a handle_event_def save_callback_throws [OF e] save_callback_returns)
qed


section \<open>Properties of construction\<close>







end
